theory Spec2Isabelle
  imports Main "HOL-Library.Sublist"
begin

section \<open>Data model of \<open>sea/cli.py\<close>\<close>

text \<open>
  Python values that travel through option declarations, parsed namespaces and task
  results. \<open>PyObj\<close> stands for an opaque object (a type such as \<open>int\<close>, a callable).
\<close>

datatype pyval = PyNone | PyBool bool | PyInt int | PyStr string | PyList "pyval list" | PyObj nat

type_synonym kwargs = "(string \<times> pyval) list"

text \<open>
  Exceptions as values. \<open>KeyError\<close> is what the dictionary lookup of
  \<open>TaskManager.__getitem__\<close> raises for an absent name (the specification calls it
  \<open>TaskNotFound\<close>); \<open>SystemExit\<close> is how \<open>argparse\<close> leaves the process (status 0 after
  printing help, status 2 after a usage error); \<open>FileNotFoundError\<close> and
  \<open>NotADirectoryError\<close> come from \<open>os.listdir\<close>; \<open>ImportError\<close> from importing a module
  that cannot be found; \<open>Raised\<close> is any other exception, named by its text.
\<close>

datatype exn =
    KeyError string
  | SystemExit nat
  | FileNotFoundError string
  | NotADirectoryError string
  | ImportError string
  | Raised string

text \<open>\<open>class TaskOption\<close>: the positional and keyword arguments of one declaration.\<close>

record TaskOption =
  args :: "string list"
  kwargs :: kwargs

text \<open>
  Function objects and list objects live in a store and are named by references: the
  registry holds a reference to the function object, the attribute \<open>opts\<close> of a function
  object holds a reference to a list object, and \<open>list.append\<close> changes that list in
  place.
\<close>

type_synonym fref = nat
type_synonym lref = nat

text \<open>
  What the program does to the outside, in order: calls of \<open>import_string\<close>, of
  the \<open>argparse\<close> library and of the task callable.
\<close>

datatype event =
    Imported string
  | ParserCreated string
  | ArgumentAdded TaskOption
  | ArgsParsed "string list"
  | Called fref kwargs

text \<open>
  The mutable state of the process: \<open>tasks\<close> is the dictionary \<open>taskm.tasks\<close>,
  \<open>opts_attr\<close> the attribute \<open>opts\<close> of every function object (\<open>None\<close> when the
  attribute is absent), \<open>heap\<close> the contents of the list objects, \<open>next_ref\<close> the next
  unused list reference, \<open>trace\<close> the events so far.
\<close>

record state =
  tasks :: "string \<rightharpoonup> fref"
  opts_attr :: "fref \<rightharpoonup> lref"
  heap :: "lref \<Rightarrow> TaskOption list"
  next_ref :: lref
  trace :: "event list"

definition emit :: "event \<Rightarrow> state \<Rightarrow> state" where
  "emit ev s = s\<lparr>trace := trace s @ [ev]\<rparr>"

section \<open>\<open>TaskManager\<close>\<close>

text \<open>
  \<open>TaskManager.task(name)\<close> applied to \<open>func\<close>: \<open>self.tasks[name] = func; return func\<close>.
\<close>

definition task :: "string \<Rightarrow> fref \<Rightarrow> state \<Rightarrow> fref \<times> state" where
  "task name func s = (func, s\<lparr>tasks := (tasks s)(name \<mapsto> func)\<rparr>)"

text \<open>
  \<open>getattr(func, 'opts', [])\<close> read for its contents only, as \<open>TaskCmd.run\<close> does.
\<close>

definition get_opts :: "state \<Rightarrow> fref \<Rightarrow> TaskOption list" where
  "get_opts s func = (case opts_attr s func of None \<Rightarrow> [] | Some l \<Rightarrow> heap s l)"

text \<open>
  \<open>TaskManager.option(*args, **kwargs)\<close> applied to \<open>func\<close>:
  \<^verbatim>\<open>
    opts = getattr(func, 'opts', [])
    if not opts:
        func.opts = opts
    opts.append(TaskOption(*args, **kwargs))
    return func
  \<close>
  The default \<open>[]\<close> of \<open>getattr\<close> is a new list object.
\<close>

definition option :: "string list \<Rightarrow> kwargs \<Rightarrow> fref \<Rightarrow> state \<Rightarrow> fref \<times> state" where
  "option as kws func s =
     (let (opts, s1) =
            (case opts_attr s func of
               Some l \<Rightarrow> (l, s)
             | None \<Rightarrow> (next_ref s,
                         s\<lparr>heap := (heap s)(next_ref s := []), next_ref := Suc (next_ref s)\<rparr>));
          s2 = (if heap s1 opts = [] then s1\<lparr>opts_attr := (opts_attr s1)(func \<mapsto> opts)\<rparr> else s1);
          s3 = s2\<lparr>heap := (heap s2)(opts := heap s2 opts @ [\<lparr>args = as, kwargs = kws\<rparr>])\<rparr>
      in (func, s3))"

text \<open>\<open>TaskManager.__getitem__\<close>: \<open>return self.tasks[name]\<close>.\<close>

definition getitem :: "state \<Rightarrow> string \<Rightarrow> exn + fref" where
  "getitem s name = (case tasks s name of None \<Rightarrow> Inl (KeyError name) | Some func \<Rightarrow> Inr func)"

text \<open>
  Decorators stacked on a definition, listed from the top line down:
  \<^verbatim>\<open>
    @d1
    @d2
    def f(): ...
  \<close>
  is \<open>f = d1(d2(f))\<close>, so the lowest decorator is applied first.
\<close>

datatype decorator = TaskDec string | OptionDec "string list" kwargs

fun apply_decorator :: "decorator \<Rightarrow> fref \<Rightarrow> state \<Rightarrow> fref \<times> state" where
  "apply_decorator (TaskDec name) func s = task name func s"
| "apply_decorator (OptionDec as kws) func s = option as kws func s"

fun decorate :: "decorator list \<Rightarrow> fref \<Rightarrow> state \<Rightarrow> fref \<times> state" where
  "decorate [] func s = (func, s)"
| "decorate (d # ds) func s = (let (g, s') = decorate ds func s in apply_decorator d g s')"

section \<open>The \<open>argparse\<close> library\<close>

text \<open>
  \<open>argparse\<close> belongs to Python's standard library, not to the repository, so the parser
  is a parameter: \<open>ArgumentParser prog\<close> is a new parser, \<open>add_argument\<close> declares one
  argument on it (and may raise), \<open>parse_args\<close> parses a token list into the namespace
  that \<open>vars\<close> turns into keyword arguments (or raises). The parser object is passed
  along instead of being changed in place.
\<close>

record 'p argparse =
  ArgumentParser :: "string \<Rightarrow> 'p"
  add_argument :: "'p \<Rightarrow> TaskOption \<Rightarrow> exn + 'p"
  parse_args :: "'p \<Rightarrow> string list \<Rightarrow> exn + kwargs"

section \<open>The world around \<open>TaskCmd\<close>\<close>

text \<open>
  The file system as \<open>os.listdir\<close> and \<open>os.path.isfile\<close> see it: a path is absent, a
  directory with its listing (in the order the system returns it), a regular file, or
  something else.
\<close>

datatype node = Dir "string list" | File | Special

record app =
  root_path :: string

text \<open>
  What loading a module does, as far as the registry is concerned: its top-level
  statements in order, each either a function with its stacked decorators or an error
  raised at load time.
\<close>

datatype stmt = Decorated "decorator list" fref | Raise exn

text \<open>The namespace of the outer command line: \<open>args.workdir\<close> and \<open>args.task\<close>.\<close>

record cli_args =
  workdir :: string
  task_arg :: string

text \<open>
  Everything \<open>TaskCmd\<close> reads and calls but does not define: the \<open>argparse\<close> library,
  the behaviour of the function objects when called with keyword arguments (a result or
  an exception, which includes the \<open>TypeError\<close> of a call whose keywords do not fit),
  \<open>sea.create_app\<close>, the entry points of the group \<open>sea.tasks\<close> in iteration order (each
  the module that \<open>ep.load()\<close> executes), the importable modules by dotted path, and
  the file system.
\<close>

record 'p env =
  lib :: "'p argparse"
  call :: "fref \<Rightarrow> kwargs \<Rightarrow> exn + pyval"
  create_app :: "string \<Rightarrow> exn + app"
  entry_points :: "stmt list list"
  modules :: "string \<rightharpoonup> stmt list"
  files :: "string \<rightharpoonup> node"

text \<open>\<open>os.path.join(a, b)\<close> on POSIX.\<close>

definition join :: "string \<Rightarrow> string \<Rightarrow> string" where
  "join a b =
     (if b \<noteq> [] \<and> hd b = CHR ''/'' then b
      else if a = [] \<or> last a = CHR ''/'' then a @ b
      else a @ ''/'' @ b)"

text \<open>\<open>os.listdir(path)\<close>.\<close>

definition listdir :: "(string \<rightharpoonup> node) \<Rightarrow> string \<Rightarrow> exn + string list" where
  "listdir fs path =
     (case fs path of
        None \<Rightarrow> Inl (FileNotFoundError path)
      | Some (Dir names) \<Rightarrow> Inr names
      | Some _ \<Rightarrow> Inl (NotADirectoryError path))"

text \<open>\<open>os.path.isfile(path)\<close>.\<close>

definition isfile :: "(string \<rightharpoonup> node) \<Rightarrow> string \<Rightarrow> bool" where
  "isfile fs path = (fs path = Some File)"

text \<open>\<open>s.endswith(suffix)\<close>.\<close>

definition endswith :: "string \<Rightarrow> string \<Rightarrow> bool" where
  "endswith s suf = (length suf \<le> length s \<and> drop (length s - length suf) s = suf)"

fun exec_module :: "stmt list \<Rightarrow> state \<Rightarrow> (exn + unit) \<times> state" where
  "exec_module [] s = (Inr (), s)"
| "exec_module (Raise e # rest) s = (Inl e, s)"
| "exec_module (Decorated ds func # rest) s = exec_module rest (snd (decorate ds func s))"

text \<open>
  Modelled from the spec: \<open>sea.utils.import_string\<close>, which is not among the sources.
  The specification has it import the module of the given dotted path, which triggers
  the registrations of that module; a module that cannot be found or that raises while
  loading is a load failure.
\<close>

definition import_string :: "(string \<rightharpoonup> stmt list) \<Rightarrow> string \<Rightarrow> state \<Rightarrow> (exn + unit) \<times> state" where
  "import_string mods path s =
     (case mods path of
        None \<Rightarrow> (Inl (ImportError path), s)
      | Some body \<Rightarrow> exec_module body s)"

section \<open>\<open>TaskCmd\<close>\<close>

text \<open>
  \<open>TaskCmd._load_plugin_tasks\<close>:
  \<^verbatim>\<open>
    for ep in pkg_resources.iter_entry_points('sea.tasks'):
        ep.load()
    return True
  \<close>
\<close>

fun load_entry_points :: "stmt list list \<Rightarrow> state \<Rightarrow> (exn + bool) \<times> state" where
  "load_entry_points [] s = (Inr True, s)"
| "load_entry_points (ep # eps) s =
     (case exec_module ep s of
        (Inl e, s') \<Rightarrow> (Inl e, s')
      | (Inr _, s') \<Rightarrow> load_entry_points eps s')"

definition load_plugin_tasks :: "'p env \<Rightarrow> state \<Rightarrow> (exn + bool) \<times> state" where
  "load_plugin_tasks env s = load_entry_points (entry_points env) s"

text \<open>
  \<open>TaskCmd._load_app_tasks\<close>:
  \<^verbatim>\<open>
    root = os.path.join(app.root_path, 'tasks')
    for m in os.listdir(root):
        if m != '__init__.py' and \
                m.endswith('.py') and \
                os.path.isfile(os.path.join(root, m)):
            import_string('tasks.{}'.format(m[:-3]))
    return True
  \<close>
\<close>

definition is_task_file :: "(string \<rightharpoonup> node) \<Rightarrow> string \<Rightarrow> string \<Rightarrow> bool" where
  "is_task_file fs root m =
     (m \<noteq> ''__init__.py'' \<and> endswith m ''.py'' \<and> isfile fs (join root m))"

definition module_path :: "string \<Rightarrow> string" where
  "module_path m = ''tasks.'' @ take (length m - 3) m"

fun load_files :: "'p env \<Rightarrow> string \<Rightarrow> string list \<Rightarrow> state \<Rightarrow> (exn + bool) \<times> state" where
  "load_files env root [] s = (Inr True, s)"
| "load_files env root (m # ms) s =
     (if is_task_file (files env) root m then
        (case import_string (modules env) (module_path m) (emit (Imported (module_path m)) s) of
           (Inl e, s') \<Rightarrow> (Inl e, s')
         | (Inr _, s') \<Rightarrow> load_files env root ms s')
      else load_files env root ms s)"

definition load_app_tasks :: "'p env \<Rightarrow> app \<Rightarrow> state \<Rightarrow> (exn + bool) \<times> state" where
  "load_app_tasks env ap s =
     (let root = join (root_path ap) ''tasks'' in
      case listdir (files env) root of
        Inl e \<Rightarrow> (Inl e, s)
      | Inr ms \<Rightarrow> load_files env root ms s)"

text \<open>
  The loop \<open>for opt in opts: parser.add_argument(*opt.args, **opt.kwargs)\<close>; an
  exception of \<open>add_argument\<close> ends it.
\<close>

fun add_arguments :: "'p argparse \<Rightarrow> 'p \<Rightarrow> TaskOption list \<Rightarrow> state \<Rightarrow> (exn + 'p) \<times> state" where
  "add_arguments B parser [] s = (Inr parser, s)"
| "add_arguments B parser (opt # opts) s =
     (case add_argument B parser opt of
        Inl e \<Rightarrow> (Inl e, emit (ArgumentAdded opt) s)
      | Inr parser' \<Rightarrow> add_arguments B parser' opts (emit (ArgumentAdded opt) s))"

text \<open>
  The dispatch at the end of \<open>TaskCmd.run\<close>, which the specification calls
  \<open>Dispatcher.invoke\<close>:
  \<^verbatim>\<open>
    func = taskm[args.task]
    opts = getattr(func, 'opts', [])
    parser = argparse.ArgumentParser('seatask')
    for opt in opts:
        parser.add_argument(*opt.args, **opt.kwargs)
    return func(**vars(parser.parse_args(extra)))
  \<close>
\<close>

definition invoke :: "'p argparse \<Rightarrow> (fref \<Rightarrow> kwargs \<Rightarrow> exn + pyval) \<Rightarrow> string \<Rightarrow> string list \<Rightarrow> state
    \<Rightarrow> (exn + pyval) \<times> state" where
  "invoke B body name extra s =
     (case getitem s name of
        Inl e \<Rightarrow> (Inl e, s)
      | Inr func \<Rightarrow>
          (case add_arguments B (ArgumentParser B ''seatask'') (get_opts s func)
                  (emit (ParserCreated ''seatask'') s) of
             (Inl e, s1) \<Rightarrow> (Inl e, s1)
           | (Inr parser, s1) \<Rightarrow>
               (case parse_args B parser extra of
                  Inl e \<Rightarrow> (Inl e, emit (ArgsParsed extra) s1)
                | Inr ns \<Rightarrow> (body func ns, emit (Called func ns) (emit (ArgsParsed extra) s1)))))"

text \<open>
  \<open>TaskCmd.run\<close>:
  \<^verbatim>\<open>
    app = create_app(args.workdir)
    self._load_plugin_tasks()
    self._load_app_tasks(app)
    global taskm
    func = taskm[args.task]
    ...
  \<close>
\<close>

definition run :: "'p env \<Rightarrow> cli_args \<Rightarrow> string list \<Rightarrow> state \<Rightarrow> (exn + pyval) \<times> state" where
  "run env a extra s =
     (case create_app env (workdir a) of
        Inl e \<Rightarrow> (Inl e, s)
      | Inr ap \<Rightarrow>
          (case load_plugin_tasks env s of
             (Inl e, s1) \<Rightarrow> (Inl e, s1)
           | (Inr _, s1) \<Rightarrow>
               (case load_app_tasks env ap s1 of
                  (Inl e, s2) \<Rightarrow> (Inl e, s2)
                | (Inr _, s2) \<Rightarrow> invoke (lib env) (call env) (task_arg a) extra s2)))"

text \<open>Projections of a trace: the module paths imported, the calls made, the arguments declared.\<close>

fun imported :: "event list \<Rightarrow> string list" where
  "imported [] = []"
| "imported (Imported p # evs) = p # imported evs"
| "imported (_ # evs) = imported evs"

fun calls :: "event list \<Rightarrow> (fref \<times> kwargs) list" where
  "calls [] = []"
| "calls (Called f ns # evs) = (f, ns) # calls evs"
| "calls (_ # evs) = calls evs"

fun declared :: "event list \<Rightarrow> TaskOption list" where
  "declared [] = []"
| "declared (ArgumentAdded opt # evs) = opt # declared evs"
| "declared (_ # evs) = declared evs"

fun parsed :: "event list \<Rightarrow> string list list" where
  "parsed [] = []"
| "parsed (ArgsParsed extra # evs) = extra # parsed evs"
| "parsed (_ # evs) = parsed evs"

fun parsers :: "event list \<Rightarrow> string list" where
  "parsers [] = []"
| "parsers (ParserCreated prog # evs) = prog # parsers evs"
| "parsers (_ # evs) = parsers evs"

section \<open>Notions used by the properties\<close>

text \<open>The parser with which the loop over the descriptors ends, without the trace.\<close>

fun build_parser :: "'p argparse \<Rightarrow> 'p \<Rightarrow> TaskOption list \<Rightarrow> exn + 'p" where
  "build_parser B parser [] = Inr parser"
| "build_parser B parser (opt # opts) =
     (case add_argument B parser opt of
        Inl e \<Rightarrow> Inl e
      | Inr parser' \<Rightarrow> build_parser B parser' opts)"

text \<open>The descriptor that one declaration \<open>@taskm.option(*args, **kwargs)\<close> creates.\<close>

definition descriptor :: "string list \<times> kwargs \<Rightarrow> TaskOption" where
  "descriptor d = \<lparr>args = fst d, kwargs = snd d\<rparr>"

definition option_decorator :: "string list \<times> kwargs \<Rightarrow> decorator" where
  "option_decorator d = OptionDec (fst d) (snd d)"

text \<open>A token that begins with the prefix character of options.\<close>

definition dashed :: "string \<Rightarrow> bool" where
  "dashed t = (t \<noteq> [] \<and> hd t = CHR ''-'')"


text \<open>
  How \<open>argparse\<close> reads one token when the help option is the only option of the
  parser. \<open>--\<close> ends the options. \<open>-h\<close>, \<open>--help\<close> and the abbreviations of \<open>--help\<close>
  select the help option. A token \<open>--help=value\<close>, with \<open>--help\<close> abbreviated as far as
  \<open>--\<close>, gives the help option a value it does not take, which is refused. A longer
  token that begins with \<open>-h\<close>, such as \<open>-hx\<close>, is read as a cluster of short options,
  and what becomes of it depends on the version of the library. Every other token is
  unknown to the parser and set aside.
\<close>

datatype token_kind = Help | Refused | Separator | Varies | Other

definition help_spelling :: "string \<Rightarrow> bool" where
  "help_spelling t = (t = ''-h'' \<or> t = ''--help'' \<or> t = ''--h'' \<or> t = ''--he'' \<or> t = ''--hel'')"

definition help_base :: "string \<Rightarrow> bool" where
  "help_base b = (b = ''--'' \<or> b = ''--h'' \<or> b = ''--he'' \<or> b = ''--hel'' \<or> b = ''--help'')"

definition kind :: "string \<Rightarrow> token_kind" where
  "kind t =
     (if t = ''--'' then Separator
      else if help_spelling t then Help
      else if CHR ''='' \<in> set t \<and> help_base (takeWhile (\<lambda>c. c \<noteq> CHR ''='') t) then Refused
      else if take 2 t = ''-h'' then Varies
      else Other)"



text \<open>
  Importing a sequence of dotted paths one after the other with \<open>import_string\<close>, up
  to the first import that raises.
\<close>

fun import_all :: "(string \<rightharpoonup> stmt list) \<Rightarrow> string list \<Rightarrow> state \<Rightarrow> (exn + bool) \<times> state" where
  "import_all mods [] s = (Inr True, s)"
| "import_all mods (path # paths) s =
     (case import_string mods path s of
        (Inl e, s') \<Rightarrow> (Inl e, s')
      | (Inr _, s') \<Rightarrow> import_all mods paths s')"

text \<open>The statements that importing a dotted path executes.\<close>

definition module_body :: "(string \<rightharpoonup> stmt list) \<Rightarrow> string \<Rightarrow> stmt list" where
  "module_body mods path = (case mods path of None \<Rightarrow> [Raise (ImportError path)] | Some body \<Rightarrow> body)"

text \<open>
  The functions that a sequence of statements registers under a name, in order, up to
  the first statement that raises.
\<close>

fun registered :: "string \<Rightarrow> stmt list \<Rightarrow> fref list" where
  "registered name [] = []"
| "registered name (Raise e # rest) = []"
| "registered name (Decorated ds func # rest) =
     (if TaskDec name \<in> set ds then [func] else []) @ registered name rest"

text \<open>The task files of a listing, and the statements of the modules they are imported as.\<close>

definition task_files :: "'p env \<Rightarrow> string \<Rightarrow> string list \<Rightarrow> string list" where
  "task_files env root ms = filter (is_task_file (files env) root) ms"

definition app_statements :: "'p env \<Rightarrow> string \<Rightarrow> string list \<Rightarrow> stmt list" where
  "app_statements env root ms =
     concat (map (\<lambda>m. module_body (modules env) (module_path m)) (task_files env root ms))"

section \<open>A small parser for the examples\<close>

text \<open>
  To run the model on concrete inputs the library parameter needs a value. This stand-in
  knows long flags that take one value (\<open>--name value\<close>, stored as a string under
  \<open>name\<close>, \<open>None\<close> when the flag is not given), the automatic help option with its
  abbreviations, and the separator \<open>--\<close>. As \<open>argparse\<close> does, it goes through the
  tokens from the left, exits with status 0 at the help option, collects the tokens it
  does not know, and reports them as a usage error (status 2) at the end. A flag without
  its value, an abbreviation that a declared flag shares with \<open>--help\<close>, a value given to
  the help option and a cluster beginning with \<open>-h\<close> are usage errors at once. Any
  declaration other than a new long flag is refused; abbreviations of declared flags and
  \<open>--name=value\<close> are not supported.
\<close>

definition mini_add :: "string list \<Rightarrow> TaskOption \<Rightarrow> exn + string list" where
  "mini_add flags opt =
     (case args opt of
        [flag] \<Rightarrow>
          (if take 2 flag = ''--'' \<and> 2 < length flag \<and> flag \<noteq> ''--help'' \<and> flag \<notin> set flags
              \<and> kwargs opt = []
           then Inr (flags @ [flag]) else Inl (Raised ''ArgumentError''))
      | _ \<Rightarrow> Inl (Raised ''ArgumentError''))"

fun mini_scan :: "string list \<Rightarrow> string list \<Rightarrow> exn + (string \<times> string) list \<times> string list" where
  "mini_scan flags [] = Inr ([], [])"
| "mini_scan flags (t # ts) =
     (if t = ''--'' then Inr ([], t # ts)
      else if t = ''-h'' \<or> t = ''--help'' then Inl (SystemExit 0)
      else if t \<in> set flags then
        (case ts of
           [] \<Rightarrow> Inl (SystemExit 2)
         | v # rest \<Rightarrow>
             (if dashed v then Inl (SystemExit 2)
              else (case mini_scan flags rest of
                      Inl e \<Rightarrow> Inl e
                    | Inr (given, unknown) \<Rightarrow> Inr ((t, v) # given, unknown))))
      else if kind t = Help then
        (if list_ex (\<lambda>flag. take (length t) flag = t) flags then Inl (SystemExit 2)
         else Inl (SystemExit 0))
      else if kind t = Refused \<or> kind t = Varies then Inl (SystemExit 2)
      else (case mini_scan flags ts of
              Inl e \<Rightarrow> Inl e
            | Inr (given, unknown) \<Rightarrow> Inr (given, t # unknown)))"

definition mini_parse :: "string list \<Rightarrow> string list \<Rightarrow> exn + kwargs" where
  "mini_parse flags extra =
     (case mini_scan flags extra of
        Inl e \<Rightarrow> Inl e
      | Inr (given, unknown) \<Rightarrow>
          (if unknown \<noteq> [] then Inl (SystemExit 2)
           else Inr (map (\<lambda>flag. (drop 2 flag,
                                  case map_of (rev given) flag of None \<Rightarrow> PyNone | Some v \<Rightarrow> PyStr v))
                       flags)))"

definition mini_argparse :: "(string list) argparse" where
  "mini_argparse = \<lparr>ArgumentParser = (\<lambda>prog. []), add_argument = mini_add, parse_args = mini_parse\<rparr>"

text \<open>A process that has just started: nothing registered, no attribute set, nothing done.\<close>

definition fresh :: state where
  "fresh = \<lparr>tasks = Map.empty, opts_attr = Map.empty, heap = (\<lambda>_. []), next_ref = 0, trace = []\<rparr>"

text \<open>Task callables for the examples: function 0 returns its keyword values, any other raises.\<close>

definition sample_call :: "fref \<Rightarrow> kwargs \<Rightarrow> exn + pyval" where
  "sample_call func ns = (if func = 0 then Inr (PyList (map snd ns)) else Inl (Raised ''boom''))"

text \<open>The events of a later state that an earlier state does not have yet.\<close>

definition new_events :: "state \<Rightarrow> state \<Rightarrow> event list" where
  "new_events s s' = drop (length (trace s)) (trace s')"

section \<open>Example inputs\<close>

text \<open>
  A task file's content
  \<^verbatim>\<open>
    @taskm.task('greet')
    @taskm.option('--who')
    def greet(who): ...
  \<close>
  executed in a process that has just started, with \<open>greet\<close> as function object 0.
\<close>

definition greet_state :: state where
  "greet_state = snd (decorate [TaskDec ''greet'', OptionDec [''--who''] []] 0 fresh)"


text \<open>
  An application in \<open>/app\<close>: one plugin registers \<open>build\<close> (function object 1); the
  directory \<open>/app/tasks\<close> holds the package initialiser, the task file \<open>build.py\<close> that
  registers \<open>build\<close> as well (function object 0), a text file, and a directory whose name
  ends in \<open>.py\<close>.
\<close>

definition demo_env :: "(string list) env" where
  "demo_env = \<lparr>
     lib = mini_argparse,
     call = sample_call,
     create_app = (\<lambda>w. Inr \<lparr>root_path = w\<rparr>),
     entry_points = [[Decorated [TaskDec ''build''] 1]],
     modules = [''tasks.build'' \<mapsto> [Decorated [TaskDec ''build''] 0]],
     files = [''/app/tasks'' \<mapsto> Dir [''__init__.py'', ''build.py'', ''notes.txt'', ''pkg.py''],
              ''/app/tasks/__init__.py'' \<mapsto> File,
              ''/app/tasks/build.py'' \<mapsto> File,
              ''/app/tasks/notes.txt'' \<mapsto> File,
              ''/app/tasks/pkg.py'' \<mapsto> Dir []]\<rparr>"

definition demo_app :: app where
  "demo_app = \<lparr>root_path = ''/app''\<rparr>"

text \<open>
  An application whose second task file raises while it loads, after it has registered
  \<open>half\<close>; the third file would register \<open>zed\<close>.
\<close>

definition broken_env :: "(string list) env" where
  "broken_env = \<lparr>
     lib = mini_argparse,
     call = sample_call,
     create_app = (\<lambda>w. Inr \<lparr>root_path = w\<rparr>),
     entry_points = [],
     modules = [''tasks.a'' \<mapsto> [Decorated [TaskDec ''a''] 0],
                ''tasks.bad'' \<mapsto> [Decorated [TaskDec ''half''] 2, Raise (Raised ''SyntaxError'')],
                ''tasks.zed'' \<mapsto> [Decorated [TaskDec ''zed''] 3]],
     files = [''/app/tasks'' \<mapsto> Dir [''a.py'', ''bad.py'', ''zed.py''],
              ''/app/tasks/a.py'' \<mapsto> File,
              ''/app/tasks/bad.py'' \<mapsto> File,
              ''/app/tasks/zed.py'' \<mapsto> File]\<rparr>"

text \<open>An application directory without \<open>tasks\<close>, and one whose \<open>tasks\<close> is empty.\<close>

definition no_tasks_env :: "(string list) env" where
  "no_tasks_env = demo_env\<lparr>files := Map.empty\<rparr>"

definition empty_tasks_env :: "(string list) env" where
  "empty_tasks_env = demo_env\<lparr>files := [''/app/tasks'' \<mapsto> Dir []]\<rparr>"

text \<open>
  An application whose \<open>tasks\<close> directory has, besides the task file \<open>build.py\<close>, the
  package initialiser, a text file and a directory named \<open>pkg.py\<close> with a file inside;
  a module exists for each of them and would register a name of its own if it were
  imported.
\<close>

definition listing_env :: "(string list) env" where
  "listing_env = \<lparr>
     lib = mini_argparse,
     call = sample_call,
     create_app = (\<lambda>w. Inr \<lparr>root_path = w\<rparr>),
     entry_points = [],
     modules = [''tasks.__init__'' \<mapsto> [Decorated [TaskDec ''init''] 5],
                ''tasks.build'' \<mapsto> [Decorated [TaskDec ''build''] 0],
                ''tasks.notes.'' \<mapsto> [Decorated [TaskDec ''notes''] 6],
                ''tasks.pkg'' \<mapsto> [Decorated [TaskDec ''pkg''] 7],
                ''tasks.inner'' \<mapsto> [Decorated [TaskDec ''inner''] 8]],
     files = [''/app/tasks'' \<mapsto> Dir [''__init__.py'', ''build.py'', ''notes.txt'', ''pkg.py''],
              ''/app/tasks/__init__.py'' \<mapsto> File,
              ''/app/tasks/build.py'' \<mapsto> File,
              ''/app/tasks/notes.txt'' \<mapsto> File,
              ''/app/tasks/pkg.py'' \<mapsto> Dir [''inner.py''],
              ''/app/tasks/pkg.py/inner.py'' \<mapsto> File]\<rparr>"

text \<open>
  Two definitions under one name, the second after the first:
  \<^verbatim>\<open>
    @taskm.task('deploy')
    @taskm.option('--old')
    def first(old): ...

    @taskm.task('deploy')
    @taskm.option('--new')
    def second(new): ...
  \<close>
  with \<open>first\<close> as function object 1 and \<open>second\<close> as function object 0.
\<close>

definition deploy_state :: state where
  "deploy_state =
     snd (decorate [TaskDec ''deploy'', OptionDec [''--new''] []] 0
            (snd (decorate [TaskDec ''deploy'', OptionDec [''--old''] []] 1 fresh)))"

section \<open>Facts about the registry\<close>

lemma task_returns_func: "fst (task name f s) = f"
  by (simp add: task_def)

lemma option_returns_func: "fst (option a k f s) = f"
  by (simp add: option_def Let_def split: option.splits prod.splits)

lemma get_opts_option: "get_opts (snd (option a k f s)) f = get_opts s f @ [\<lparr>args = a, kwargs = k\<rparr>]"
  by (simp add: option_def get_opts_def Let_def split: option.splits)

lemma tasks_option: "tasks (snd (option a k f s)) = tasks s"
  by (simp add: option_def Let_def split: option.splits)

lemma trace_option: "trace (snd (option a k f s)) = trace s"
  by (simp add: option_def Let_def split: option.splits)

lemma get_opts_task: "get_opts (snd (task name g s)) f = get_opts s f"
  by (simp add: task_def get_opts_def split: option.splits)

lemma apply_decorator_fst: "fst (apply_decorator d g t) = g"
  by (cases d) (simp_all add: task_returns_func option_returns_func)

lemma decorate_fst: "fst (decorate ds f s) = f"
proof (induction ds)
  case Nil
  then show ?case by simp
next
  case (Cons d ds)
  then show ?case by (auto simp: apply_decorator_fst split: prod.splits)
qed

lemma decorate_Cons: "decorate (d # ds) f s = apply_decorator d f (snd (decorate ds f s))"
proof -
  show ?thesis using decorate_fst[of ds f s]
    by (simp add: case_prod_unfold Let_def)
qed

lemma apply_decorator_trace: "trace (snd (apply_decorator d f s)) = trace s"
  by (cases d) (simp_all add: task_def trace_option)

lemma decorate_trace: "trace (snd (decorate ds f s)) = trace s"
  by (induction ds) (simp_all add: decorate_Cons apply_decorator_trace del: decorate.simps(2))

lemma apply_decorator_tasks:
  "tasks (snd (apply_decorator d f s)) name = (if d = TaskDec name then Some f else tasks s name)"
  by (cases d) (auto simp: task_def tasks_option)

lemma decorate_tasks:
  "tasks (snd (decorate ds f s)) name = (if TaskDec name \<in> set ds then Some f else tasks s name)"
  by (induction ds) (auto simp: decorate_Cons apply_decorator_tasks simp del: decorate.simps(2))

lemma get_opts_options:
  "get_opts (snd (decorate (map option_decorator decls) f s)) f = get_opts s f @ rev (map descriptor decls)"
  by (induction decls)
     (simp_all add: decorate_Cons option_decorator_def descriptor_def get_opts_option del: decorate.simps(2))

lemma task_option_commute:
  "task name f (snd (option a k f s)) = option a k f (snd (task name f s))"
  by (simp add: option_def task_def Let_def split: option.splits)

lemma apply_option_decorator:
  "apply_decorator (option_decorator d) f t = option (fst d) (snd d) f t"
  by (simp add: option_decorator_def)

lemma task_moves_up:
  "decorate (map option_decorator ds @ TaskDec name # rest) f s =
   decorate (TaskDec name # map option_decorator ds @ rest) f s"
proof (induction ds)
  case Nil
  then show ?case by simp
next
  case (Cons d ds)
  let ?t = "snd (decorate (map option_decorator ds @ rest) f s)"
  have "decorate (map option_decorator (d # ds) @ TaskDec name # rest) f s =
        option (fst d) (snd d) f (snd (task name f ?t))"
    using Cons by (simp add: decorate_Cons apply_option_decorator del: decorate.simps(2))
  also have "\<dots> = task name f (snd (option (fst d) (snd d) f ?t))"
    by (simp add: task_option_commute)
  also have "\<dots> = decorate (TaskDec name # map option_decorator (d # ds) @ rest) f s"
    by (simp add: decorate_Cons apply_option_decorator del: decorate.simps(2))
  finally show ?case .
qed

section \<open>Facts about traces\<close>

lemma declared_append: "declared (xs @ ys) = declared xs @ declared ys"
  by (induction xs rule: declared.induct) auto

lemma calls_append: "calls (xs @ ys) = calls xs @ calls ys"
  by (induction xs rule: calls.induct) auto

lemma imported_append: "imported (xs @ ys) = imported xs @ imported ys"
  by (induction xs rule: imported.induct) auto

lemma imported_map: "imported (map Imported ps) = ps"
  by (induction ps) auto

lemma imported_map_comp: "imported (map (Imported \<circ> f) xs) = map f xs"
  by (induction xs) auto

lemma declared_map: "declared (map ArgumentAdded opts) = opts"
  by (induction opts) auto

lemma calls_map: "calls (map ArgumentAdded opts) = []"
  by (induction opts) auto

section \<open>Facts about the dispatch\<close>

lemma fst_add_arguments: "fst (add_arguments B p opts s) = build_parser B p opts"
  by (induction opts arbitrary: p s) (auto split: sum.splits)

lemma add_arguments_state:
  "add_arguments B p opts s = (r, s1) \<Longrightarrow>
     \<exists>k \<le> length opts. s1 = s\<lparr>trace := trace s @ map ArgumentAdded (take k opts)\<rparr>
        \<and> (\<forall>q. r = Inr q \<longrightarrow> k = length opts)"
proof (induction opts arbitrary: p s)
  case Nil
  then show ?case by auto
next
  case (Cons opt opts)
  show ?case
  proof (cases "add_argument B p opt")
    case (Inl e)
    with Cons.prems have "s1 = emit (ArgumentAdded opt) s" "r = Inl e" by auto
    then show ?thesis by (intro exI[of _ 1]) (auto simp: emit_def)
  next
    case (Inr p')
    with Cons.prems have "add_arguments B p' opts (emit (ArgumentAdded opt) s) = (r, s1)" by simp
    from Cons.IH[OF this] obtain k where k: "k \<le> length opts"
      "s1 = (emit (ArgumentAdded opt) s)\<lparr>trace := trace (emit (ArgumentAdded opt) s) @ map ArgumentAdded (take k opts)\<rparr>"
      "\<forall>q. r = Inr q \<longrightarrow> k = length opts" by blast
    then show ?thesis by (intro exI[of _ "Suc k"]) (auto simp: emit_def)
  qed
qed

text \<open>
  The dispatch of a registered name, in one piece: the parser is built from the
  descriptors of the registered function, the tokens are parsed, the function is called
  on the parsed namespace; the trace grows by the parser, a prefix of the descriptors
  (all of them when none is refused), the parse and the call.
\<close>

lemma invoke_registered:
  assumes "tasks s name = Some f"
  shows "\<exists>k \<le> length (get_opts s f). \<exists>tl.
           fst (invoke B body name extra s) =
             (case build_parser B (ArgumentParser B ''seatask'') (get_opts s f) of
                Inl e \<Rightarrow> Inl e
              | Inr p \<Rightarrow> (case parse_args B p extra of Inl e \<Rightarrow> Inl e | Inr ns \<Rightarrow> body f ns)) \<and>
           snd (invoke B body name extra s) =
             s\<lparr>trace := trace s @ ParserCreated ''seatask'' # map ArgumentAdded (take k (get_opts s f)) @ tl\<rparr> \<and>
           tl = (case build_parser B (ArgumentParser B ''seatask'') (get_opts s f) of
                   Inl e \<Rightarrow> []
                 | Inr p \<Rightarrow> (case parse_args B p extra of
                               Inl e \<Rightarrow> [ArgsParsed extra]
                             | Inr ns \<Rightarrow> [ArgsParsed extra, Called f ns])) \<and>
           (\<forall>p. build_parser B (ArgumentParser B ''seatask'') (get_opts s f) = Inr p \<longrightarrow> k = length (get_opts s f))"
proof -
  let ?s0 = "emit (ParserCreated ''seatask'') s"
  let ?p0 = "ArgumentParser B ''seatask''"
  obtain r s1 where a: "add_arguments B ?p0 (get_opts s f) ?s0 = (r, s1)"
    by fastforce
  have r: "r = build_parser B ?p0 (get_opts s f)"
    using fst_add_arguments[of B ?p0 "get_opts s f" ?s0] a by simp
  from add_arguments_state[OF a] obtain k where k: "k \<le> length (get_opts s f)"
    "s1 = ?s0\<lparr>trace := trace ?s0 @ map ArgumentAdded (take k (get_opts s f))\<rparr>"
    "\<forall>q. r = Inr q \<longrightarrow> k = length (get_opts s f)" by blast
  show ?thesis
    using assms a k(1) k(3)
    by (intro exI[of _ k])
       (auto simp: invoke_def getitem_def k(2) r[symmetric] emit_def split: sum.splits)
qed

lemma invoke_fst:
  assumes "tasks s name = Some f"
  shows "fst (invoke B body name extra s) =
           (case build_parser B (ArgumentParser B ''seatask'') (get_opts s f) of
              Inl e \<Rightarrow> Inl e
            | Inr p \<Rightarrow> (case parse_args B p extra of Inl e \<Rightarrow> Inl e | Inr ns \<Rightarrow> body f ns))"
  using invoke_registered[OF assms, of B body extra] by blast

lemma invoke_declared:
  assumes "tasks s name = Some f"
  shows "prefix (declared (new_events s (snd (invoke B body name extra s)))) (get_opts s f) \<and>
         (\<forall>p. build_parser B (ArgumentParser B ''seatask'') (get_opts s f) = Inr p \<longrightarrow>
            declared (new_events s (snd (invoke B body name extra s))) = get_opts s f)"
proof -
  from invoke_registered[OF assms, of B body extra] obtain k tl where k:
    "snd (invoke B body name extra s) =
       s\<lparr>trace := trace s @ ParserCreated ''seatask'' # map ArgumentAdded (take k (get_opts s f)) @ tl\<rparr>"
    "tl = (case build_parser B (ArgumentParser B ''seatask'') (get_opts s f) of
             Inl e \<Rightarrow> []
           | Inr p \<Rightarrow> (case parse_args B p extra of
                         Inl e \<Rightarrow> [ArgsParsed extra]
                       | Inr ns \<Rightarrow> [ArgsParsed extra, Called f ns]))"
    "\<forall>p. build_parser B (ArgumentParser B ''seatask'') (get_opts s f) = Inr p \<longrightarrow> k = length (get_opts s f)"
    by blast
  have tl: "declared tl = []"
    unfolding k(2) by (simp split: sum.splits)
  have d: "declared (new_events s (snd (invoke B body name extra s))) = take k (get_opts s f)"
    by (simp add: k(1) new_events_def declared_append declared_map tl)
  show ?thesis unfolding d using k(3) by (auto simp: take_is_prefix)
qed

lemma invoke_calls:
  assumes "tasks s name = Some f"
  shows "calls (new_events s (snd (invoke B body name extra s))) =
           (case build_parser B (ArgumentParser B ''seatask'') (get_opts s f) of
              Inl e \<Rightarrow> []
            | Inr p \<Rightarrow> (case parse_args B p extra of Inl e \<Rightarrow> [] | Inr ns \<Rightarrow> [(f, ns)]))"
proof -
  from invoke_registered[OF assms, of B body extra] obtain k tl where k:
    "snd (invoke B body name extra s) =
       s\<lparr>trace := trace s @ ParserCreated ''seatask'' # map ArgumentAdded (take k (get_opts s f)) @ tl\<rparr>"
    "tl = (case build_parser B (ArgumentParser B ''seatask'') (get_opts s f) of
             Inl e \<Rightarrow> []
           | Inr p \<Rightarrow> (case parse_args B p extra of
                         Inl e \<Rightarrow> [ArgsParsed extra]
                       | Inr ns \<Rightarrow> [ArgsParsed extra, Called f ns]))"
    by blast
  have "calls (new_events s (snd (invoke B body name extra s))) = calls tl"
    by (simp add: k(1) new_events_def calls_append calls_map)
  then show ?thesis unfolding k(2) by (simp split: sum.splits)
qed

section \<open>Facts about loading\<close>

lemma exec_module_trace: "trace (snd (exec_module b s)) = trace s"
  by (induction b s rule: exec_module.induct) (auto simp: decorate_trace)

lemma exec_module_tasks:
  "tasks (snd (exec_module b s)) name =
     (if registered name b = [] then tasks s name else Some (last (registered name b)))"
  by (induction b s rule: exec_module.induct) (auto simp: decorate_tasks)

lemma registered_append:
  "fst (exec_module a s) = Inr u \<Longrightarrow> registered name (a @ b) = registered name a @ registered name b"
  by (induction a s rule: exec_module.induct) auto

lemma import_string_body: "import_string mods path s = exec_module (module_body mods path) s"
  by (simp add: import_string_def module_body_def split: option.splits)

lemma task_files_Cons:
  "task_files env root (m # ms) =
     (if is_task_file (files env) root m then m # task_files env root ms else task_files env root ms)"
  by (simp add: task_files_def)

lemma app_statements_Cons:
  "app_statements env root (m # ms) =
     (if is_task_file (files env) root m
      then module_body (modules env) (module_path m) @ app_statements env root ms
      else app_statements env root ms)"
  by (simp add: app_statements_def task_files_def)

lemma load_files_tasks:
  "load_files env root ms s = (Inr b, s') \<Longrightarrow>
     tasks s' name =
       (if registered name (app_statements env root ms) = [] then tasks s name
        else Some (last (registered name (app_statements env root ms))))"
proof (induction ms arbitrary: s)
  case Nil
  then show ?case by (simp add: app_statements_def task_files_def)
next
  case (Cons m ms)
  show ?case
  proof (cases "is_task_file (files env) root m")
    case False
    with Cons show ?thesis by (simp add: app_statements_Cons)
  next
    case True
    let ?body = "module_body (modules env) (module_path m)"
    let ?s0 = "emit (Imported (module_path m)) s"
    obtain r s1 where ex: "exec_module ?body ?s0 = (r, s1)" by fastforce
    with Cons.prems True obtain u where r: "r = Inr u" and rest: "load_files env root ms s1 = (Inr b, s')"
      by (auto simp: import_string_body split: sum.splits)
    have t1: "tasks s1 name =
        (if registered name ?body = [] then tasks s name else Some (last (registered name ?body)))"
      using exec_module_tasks[of ?body ?s0 name] ex by (simp add: emit_def)
    have reg: "registered name (app_statements env root (m # ms)) =
        registered name ?body @ registered name (app_statements env root ms)"
      using registered_append[of ?body ?s0 u] ex r True by (simp add: app_statements_Cons)
    show ?thesis using Cons.IH[OF rest] t1 by (simp add: reg)
  qed
qed

lemma load_files_trace:
  "load_files env root ms s = (r, s') \<Longrightarrow>
     \<exists>k \<le> length (task_files env root ms).
        trace s' = trace s @ map Imported (take k (map module_path (task_files env root ms)))
        \<and> (\<forall>b. r = Inr b \<longrightarrow> k = length (task_files env root ms))"
proof (induction ms arbitrary: s)
  case Nil
  then show ?case by (simp add: task_files_def)
next
  case (Cons m ms)
  show ?case
  proof (cases "is_task_file (files env) root m")
    case False
    with Cons show ?thesis by (simp add: task_files_Cons)
  next
    case True
    let ?body = "module_body (modules env) (module_path m)"
    let ?s0 = "emit (Imported (module_path m)) s"
    obtain q s1 where ex: "exec_module ?body ?s0 = (q, s1)" by fastforce
    have tr1: "trace s1 = trace s @ [Imported (module_path m)]"
      using exec_module_trace[of ?body ?s0] ex by (simp add: emit_def)
    have tf: "task_files env root (m # ms) = m # task_files env root ms"
      using True by (simp add: task_files_Cons)
    show ?thesis
    proof (cases q)
      case (Inl e)
      with Cons.prems True ex have "s' = s1" "r = Inl e" by (auto simp: import_string_body)
      then show ?thesis using tr1 tf by (intro exI[of _ 1]) auto
    next
      case (Inr u)
      with Cons.prems True ex have rest: "load_files env root ms s1 = (r, s')"
        by (auto simp: import_string_body)
      from Cons.IH[OF rest] obtain k where k: "k \<le> length (task_files env root ms)"
        "trace s' = trace s1 @ map Imported (take k (map module_path (task_files env root ms)))"
        "\<forall>b. r = Inr b \<longrightarrow> k = length (task_files env root ms)" by blast
      then show ?thesis using tr1 tf by (intro exI[of _ "Suc k"]) auto
    qed
  qed
qed

lemma load_files_imports:
  assumes "load_files env root ms s = (r, s')"
  shows "prefix (imported (new_events s s')) (map module_path (task_files env root ms)) \<and>
         (\<forall>b. r = Inr b \<longrightarrow> imported (new_events s s') = map module_path (task_files env root ms))"
proof -
  from load_files_trace[OF assms] obtain k where k:
    "trace s' = trace s @ map Imported (take k (map module_path (task_files env root ms)))"
    "\<forall>b. r = Inr b \<longrightarrow> k = length (task_files env root ms)" by blast
  have ne: "imported (new_events s s') = take k (map module_path (task_files env root ms))"
    by (simp add: new_events_def k(1) imported_map)
  show ?thesis unfolding ne using k(2) by (auto simp: take_is_prefix)
qed

lemma load_files_returns_True: "load_files env root ms s = (Inr b, s') \<Longrightarrow> b"
  by (induction ms arbitrary: s) (auto split: if_splits sum.splits prod.splits)

lemma load_files_fail_fast:
  assumes "load_files env root pre s = (Inr b, s1)"
    and "is_task_file (files env) root m"
    and "import_string (modules env) (module_path m) (emit (Imported (module_path m)) s1) = (Inl e, s2)"
  shows "load_files env root (pre @ m # post) s = (Inl e, s2)"
  using assms
proof (induction pre arbitrary: s)
  case Nil
  then show ?case by simp
next
  case (Cons x pre)
  then show ?case by (auto split: if_splits sum.splits prod.splits)
qed

lemma endswith_py: "endswith m ''.py'' \<Longrightarrow> m = take (length m - 3) m @ ''.py''"
proof -
  assume "endswith m ''.py''"
  then have "drop (length m - 3) m = ''.py''" by (simp add: endswith_def numeral_3_eq_3)
  then show ?thesis by (metis append_take_drop_id)
qed

lemma task_trace_upd:
  "task name f (s\<lparr>trace := t\<rparr>) = (f, (snd (task name f s))\<lparr>trace := t\<rparr>)"
  by (simp add: task_def)

lemma option_trace_upd:
  "option a k f (s\<lparr>trace := t\<rparr>) = (f, (snd (option a k f s))\<lparr>trace := t\<rparr>)"
  by (simp add: option_def Let_def split: option.splits)

lemma apply_decorator_trace_upd:
  "apply_decorator d f (s\<lparr>trace := t\<rparr>) = (f, (snd (apply_decorator d f s))\<lparr>trace := t\<rparr>)"
  by (cases d) (simp_all add: task_trace_upd option_trace_upd)

lemma decorate_trace_upd:
  "decorate ds f (s\<lparr>trace := t\<rparr>) = (f, (snd (decorate ds f s))\<lparr>trace := t\<rparr>)"
  by (induction ds) (simp_all add: decorate_Cons apply_decorator_trace_upd del: decorate.simps(2))

lemma exec_module_trace_upd:
  "exec_module b (s\<lparr>trace := t\<rparr>) = (fst (exec_module b s), (snd (exec_module b s))\<lparr>trace := t\<rparr>)"
  by (induction b s rule: exec_module.induct) (simp_all add: decorate_trace_upd)

lemma import_string_trace_upd:
  "import_string mods path (s\<lparr>trace := t\<rparr>) =
     (fst (import_string mods path s), (snd (import_string mods path s))\<lparr>trace := t\<rparr>)"
  by (simp add: import_string_body exec_module_trace_upd)

lemma import_all_trace_upd:
  "import_all mods paths (s\<lparr>trace := t\<rparr>) =
     (fst (import_all mods paths s), (snd (import_all mods paths s))\<lparr>trace := t\<rparr>)"
proof (induction paths arbitrary: s)
  case Nil
  then show ?case by simp
next
  case (Cons p ps)
  show ?case
    by (cases "import_string mods p s"; cases "fst (import_string mods p s)")
       (auto simp: import_string_trace_upd Cons)
qed

text \<open>
  The loop of \<open>_load_app_tasks\<close> has the result and, but for the trace, the state of
  importing the module paths of the task files one after the other.
\<close>

lemma load_files_import_all:
  "load_files env root ms s = (r, s') \<Longrightarrow>
     r = fst (import_all (modules env) (map module_path (task_files env root ms)) s) \<and>
     s' = (snd (import_all (modules env) (map module_path (task_files env root ms)) s))\<lparr>trace := trace s'\<rparr>"
proof (induction ms arbitrary: s)
  case Nil
  then show ?case by (auto simp: task_files_def)
next
  case (Cons m ms)
  show ?case
  proof (cases "is_task_file (files env) root m")
    case False
    with Cons show ?thesis by (simp add: task_files_Cons)
  next
    case True
    let ?p = "module_path m"
    let ?t = "trace s @ [Imported ?p]"
    obtain q s0 where imp: "import_string (modules env) ?p s = (q, s0)" by fastforce
    have emitted: "import_string (modules env) ?p (emit (Imported ?p) s) = (q, s0\<lparr>trace := ?t\<rparr>)"
      using import_string_trace_upd[where mods = "modules env" and path = ?p and s = s and t = ?t] imp
      by (simp add: emit_def)
    show ?thesis
    proof (cases q)
      case (Inl e)
      with Cons.prems True emitted have "r = Inl e" "s' = s0\<lparr>trace := ?t\<rparr>" by auto
      then show ?thesis using True imp Inl by (simp add: task_files_Cons)
    next
      case (Inr u)
      with Cons.prems True emitted have rest: "load_files env root ms (s0\<lparr>trace := ?t\<rparr>) = (r, s')"
        by auto
      from Cons.IH[OF rest] show ?thesis
        using True imp Inr
        by (simp add: task_files_Cons
            import_all_trace_upd[where mods = "modules env" and s = s0 and t = ?t
              and paths = "map module_path (task_files env root ms)"])
    qed
  qed
qed

lemma tasks_options: "tasks (snd (decorate (map option_decorator decls) f s)) = tasks s"
proof
  fix name
  have "TaskDec name \<notin> set (map option_decorator decls)"
    by (auto simp: option_decorator_def)
  then show "tasks (snd (decorate (map option_decorator decls) f s)) name = tasks s name"
    by (simp add: decorate_tasks)
qed

lemma foldl_add_Inl:
  "foldl (\<lambda>r opt. case r of Inl e \<Rightarrow> Inl e | Inr p \<Rightarrow> add_argument B p opt) (Inl e) opts = Inl e"
  by (induction opts) auto

lemma build_parser_foldl:
  "build_parser B p opts =
     foldl (\<lambda>r opt. case r of Inl e \<Rightarrow> Inl e | Inr p \<Rightarrow> add_argument B p opt) (Inr p) opts"
  by (induction opts arbitrary: p) (auto simp: foldl_add_Inl split: sum.splits)

section \<open>Facts about the tokens and the stand-in parser\<close>












section \<open>Properties of the dispatch\<close>

text \<open>
  C1. For a registered task whose extra tokens parse against the parser built from its
  option descriptors, the dispatch calls the task callable exactly once, with the parsed
  namespace as keyword arguments, and its outcome is the outcome of that call: the value
  the callable returns, or the exception it raises, unchanged.
\<close>

theorem invoke_calls_task_once:
  assumes "tasks s name = Some f"
    and "build_parser B (ArgumentParser B ''seatask'') (get_opts s f) = Inr p"
    and "parse_args B p extra = Inr ns"
  shows "fst (invoke B body name extra s) = body f ns \<and>
         calls (new_events s (snd (invoke B body name extra s))) = [(f, ns)]"
  using invoke_fst[OF assms(1), of B body extra] invoke_calls[OF assms(1), of B body extra]
    assms(2) assms(3)
  by simp

theorem invoke_calls_task_once_witness:
  "tasks greet_state ''greet'' = Some 0 \<and>
   build_parser mini_argparse (ArgumentParser mini_argparse ''seatask'') (get_opts greet_state 0)
     = Inr [''--who''] \<and>
   parse_args mini_argparse [''--who''] [''--who'', ''bob''] = Inr [(''who'', PyStr ''bob'')] \<and>
   fst (invoke mini_argparse sample_call ''greet'' [''--who'', ''bob''] greet_state)
     = Inr (PyList [PyStr ''bob'']) \<and>
   calls (new_events greet_state
            (snd (invoke mini_argparse sample_call ''greet'' [''--who'', ''bob''] greet_state)))
     = [(0, [(''who'', PyStr ''bob'')])]"
proof -
  have h1: "tasks greet_state ''greet'' = Some 0"
    by (simp add: greet_state_def fresh_def task_def option_def)
  have opts: "get_opts greet_state 0 = [\<lparr>args = [''--who''], kwargs = []\<rparr>]"
    by (simp add: greet_state_def fresh_def task_def option_def get_opts_def)
  have h2: "build_parser mini_argparse (ArgumentParser mini_argparse ''seatask'')
              (get_opts greet_state 0) = Inr [''--who'']"
    by (simp add: opts mini_argparse_def mini_add_def)
  have h3: "parse_args mini_argparse [''--who''] [''--who'', ''bob''] = Inr [(''who'', PyStr ''bob'')]"
    by (simp add: mini_argparse_def mini_parse_def dashed_def)
  show ?thesis
    using invoke_calls_task_once[OF h1 h2 h3, of sample_call] h1 h2 h3
    by (simp add: sample_call_def)
qed

text \<open>
  C2. A name is registered for one callable and then, after any option declarations on
  a second callable, for that second callable. Afterwards the registry is the one from
  before both registrations with the name bound to the second callable: one entry under
  the name, every other name as before, and no error is raised. A dispatch of the name
  then builds its parser from the descriptors stored on the second callable and from
  nothing else (those it had before, followed by the new ones in stored order): the
  parser that parses the tokens is the one built from exactly these, the callable that
  runs is the second, and the arguments declared on the parser are these, in order, up
  to the first that \<open>add_argument\<close> refuses.
\<close>

theorem register_twice_replaces:
  assumes "s1 = snd (task name f1 s)"
    and "s2 = snd (task name f2 (snd (decorate (map option_decorator decls) f2 s1)))"
    and "(opts_attr s f2 = None \<and> old = []) \<or> (\<exists>l. opts_attr s f2 = Some l \<and> heap s l = old)"
  shows "tasks s2 = (tasks s)(name \<mapsto> f2) \<and>
         getitem s2 name = Inr f2 \<and>
         fst (invoke B body name extra s2) =
           (case build_parser B (ArgumentParser B ''seatask'') (old @ rev (map descriptor decls)) of
              Inl e \<Rightarrow> Inl e
            | Inr p \<Rightarrow> (case parse_args B p extra of Inl e \<Rightarrow> Inl e | Inr ns \<Rightarrow> body f2 ns)) \<and>
         prefix (declared (new_events s2 (snd (invoke B body name extra s2))))
                (old @ rev (map descriptor decls)) \<and>
         (\<forall>p. build_parser B (ArgumentParser B ''seatask'') (old @ rev (map descriptor decls)) = Inr p \<longrightarrow>
            declared (new_events s2 (snd (invoke B body name extra s2))) = old @ rev (map descriptor decls)) \<and>
         build_parser B (ArgumentParser B ''seatask'') (old @ rev (map descriptor decls)) =
           foldl (\<lambda>r opt. case r of Inl e \<Rightarrow> Inl e | Inr p \<Rightarrow> add_argument B p opt)
                 (Inr (ArgumentParser B ''seatask'')) (old @ rev (map descriptor decls))"
proof -
  let ?d = "snd (decorate (map option_decorator decls) f2 s1)"
  have o0: "get_opts s f2 = old"
    using assms(3) by (auto simp: get_opts_def)
  have o1: "get_opts s1 f2 = old"
    unfolding assms(1) by (simp add: get_opts_task o0)
  have o2: "get_opts s2 f2 = old @ rev (map descriptor decls)"
    unfolding assms(2) by (simp add: get_opts_task get_opts_options o1)
  have t: "tasks s2 = (tasks s)(name \<mapsto> f2)"
    unfolding assms(2) assms(1) by (simp add: task_def tasks_options)
  then have l: "tasks s2 name = Some f2" by simp
  show ?thesis
    using t l invoke_fst[OF l, of B body extra] invoke_declared[OF l, of B body extra]
      build_parser_foldl[of B "ArgumentParser B ''seatask''" "old @ rev (map descriptor decls)"]
    by (simp add: getitem_def o2)
qed

theorem register_twice_replaces_witness:
  "deploy_state =
     snd (task ''deploy'' 0 (snd (decorate (map option_decorator [([''--new''], [])]) 0
       (snd (task ''deploy'' 1 (snd (decorate [OptionDec [''--old''] []] 1 fresh))))))) \<and>
   opts_attr (snd (decorate [OptionDec [''--old''] []] 1 fresh)) 0 = None \<and>
   build_parser mini_argparse (ArgumentParser mini_argparse ''seatask'')
     ([] @ rev (map descriptor [([''--new''], [])])) = Inr [''--new''] \<and>
   getitem deploy_state ''deploy'' = Inr 0 \<and>
   fst (invoke mini_argparse sample_call ''deploy'' [''--new'', ''v''] deploy_state)
     = Inr (PyList [PyStr ''v'']) \<and>
   fst (invoke mini_argparse sample_call ''deploy'' [''--old'', ''v''] deploy_state)
     = Inl (SystemExit 2) \<and>
   declared (new_events deploy_state
       (snd (invoke mini_argparse sample_call ''deploy'' [''--new'', ''v''] deploy_state)))
     = [\<lparr>args = [''--new''], kwargs = []\<rparr>]"
proof -
  let ?s = "snd (decorate [OptionDec [''--old''] []] 1 fresh)"
  let ?s1 = "snd (task ''deploy'' 1 ?s)"
  have d: "deploy_state =
     snd (task ''deploy'' 0 (snd (decorate (map option_decorator [([''--new''], [])]) 0 ?s1)))"
    by (simp add: deploy_state_def option_decorator_def case_prod_unfold
        task_returns_func option_returns_func)
  have h3: "(opts_attr ?s 0 = None \<and> ([]::TaskOption list) = []) \<or>
            (\<exists>l. opts_attr ?s 0 = Some l \<and> heap ?s l = [])"
    by (simp add: fresh_def option_def)
  have n: "opts_attr ?s 0 = None"
    by (simp add: fresh_def option_def)
  have b: "build_parser mini_argparse (ArgumentParser mini_argparse ''seatask'')
     ([] @ rev (map descriptor [([''--new''], [])])) = Inr [''--new'']"
    by (simp add: descriptor_def mini_argparse_def mini_add_def)
  have pn: "parse_args mini_argparse [''--new''] [''--new'', ''v''] = Inr [(''new'', PyStr ''v'')]"
    by (simp add: mini_argparse_def mini_parse_def dashed_def)
  have po: "parse_args mini_argparse [''--new''] [''--old'', ''v''] = Inl (SystemExit 2)"
    by (simp add: mini_argparse_def mini_parse_def dashed_def kind_def help_spelling_def help_base_def)
  note inst = register_twice_replaces[OF refl d h3, where B = mini_argparse and body = sample_call]
  show ?thesis
    using inst[of "[''--new'', ''v'']"] inst[of "[''--old'', ''v'']"] d n b pn po
    by (simp add: sample_call_def descriptor_def)
qed

text \<open>
  C3. For a name that the registry does not hold, the dispatch fails with the lookup
  error of the registry (\<open>KeyError\<close>, the \<open>TaskNotFound\<close> of the specification) whatever
  the extra tokens are, and the state is as before: no parser has been created, no
  argument declared, nothing parsed.
\<close>

theorem invoke_unknown_task:
  assumes "tasks s name = None"
  shows "invoke B body name extra s = (Inl (KeyError name), s) \<and>
         new_events s (snd (invoke B body name extra s)) = [] \<and>
         parsers (new_events s (snd (invoke B body name extra s))) = [] \<and>
         parsed (new_events s (snd (invoke B body name extra s))) = []"
  using assms by (simp add: invoke_def getitem_def new_events_def)

theorem invoke_unknown_task_witness:
  "tasks fresh ''missing-task'' = None \<and>
   invoke mini_argparse sample_call ''missing-task'' [''--x'', ''1''] fresh
     = (Inl (KeyError ''missing-task''), fresh)"
proof -
  have h: "tasks fresh ''missing-task'' = None" by (simp add: fresh_def)
  show ?thesis
    using invoke_unknown_task[OF h, of mini_argparse sample_call "[''--x'', ''1'']"] h by simp
qed

text \<open>
  C6. Option declarations stacked on a newly defined function, listed from the top line
  down, leave the function with the descriptors in the reverse of that order, and the
  dispatch registers them on its parser in the stored order: the parser that parses the
  tokens is the one obtained by \<open>add_argument\<close> on the new parser with the stored
  descriptors one after the other, what the dispatch declares is a prefix of the stored
  sequence, and the whole of it when no declaration is refused.
\<close>

theorem stacked_options_reversed:
  assumes "opts_attr s f = None"
    and "s1 = snd (decorate (TaskDec name # map option_decorator decls) f s)"
  shows "get_opts s1 f = rev (map descriptor decls) \<and>
         prefix (declared (new_events s1 (snd (invoke B body name extra s1))))
                (rev (map descriptor decls)) \<and>
         (\<forall>p. build_parser B (ArgumentParser B ''seatask'') (rev (map descriptor decls)) = Inr p \<longrightarrow>
            declared (new_events s1 (snd (invoke B body name extra s1))) = rev (map descriptor decls)) \<and>
         fst (invoke B body name extra s1) =
           (case build_parser B (ArgumentParser B ''seatask'') (rev (map descriptor decls)) of
              Inl e \<Rightarrow> Inl e
            | Inr p \<Rightarrow> (case parse_args B p extra of Inl e \<Rightarrow> Inl e | Inr ns \<Rightarrow> body f ns)) \<and>
         build_parser B (ArgumentParser B ''seatask'') (rev (map descriptor decls)) =
           foldl (\<lambda>r opt. case r of Inl e \<Rightarrow> Inl e | Inr p \<Rightarrow> add_argument B p opt)
                 (Inr (ArgumentParser B ''seatask'')) (rev (map descriptor decls))"
proof -
  have e: "get_opts s f = []" using assms(1) by (simp add: get_opts_def)
  have s1: "s1 = snd (task name f (snd (decorate (map option_decorator decls) f s)))"
    unfolding assms(2) by (simp add: decorate_Cons del: decorate.simps(2))
  have o: "get_opts s1 f = rev (map descriptor decls)"
    unfolding s1 by (simp add: get_opts_task get_opts_options e)
  have l: "tasks s1 name = Some f"
    unfolding s1 by (simp add: task_def)
  show ?thesis
    using o invoke_declared[OF l, of B body extra] invoke_fst[OF l, of B body extra]
      build_parser_foldl[of B "ArgumentParser B ''seatask''" "rev (map descriptor decls)"]
    by simp
qed

theorem stacked_options_reversed_witness:
  "opts_attr fresh 0 = None \<and>
   get_opts (snd (decorate [TaskDec ''t'', OptionDec [''--a''] [], OptionDec [''--b''] []] 0 fresh)) 0
     = [\<lparr>args = [''--b''], kwargs = []\<rparr>, \<lparr>args = [''--a''], kwargs = []\<rparr>] \<and>
   build_parser mini_argparse (ArgumentParser mini_argparse ''seatask'')
      [\<lparr>args = [''--b''], kwargs = []\<rparr>, \<lparr>args = [''--a''], kwargs = []\<rparr>] = Inr [''--b'', ''--a''] \<and>
   declared (new_events
      (snd (decorate [TaskDec ''t'', OptionDec [''--a''] [], OptionDec [''--b''] []] 0 fresh))
      (snd (invoke mini_argparse sample_call ''t'' []
         (snd (decorate [TaskDec ''t'', OptionDec [''--a''] [], OptionDec [''--b''] []] 0 fresh)))))
     = [\<lparr>args = [''--b''], kwargs = []\<rparr>, \<lparr>args = [''--a''], kwargs = []\<rparr>] \<and>
   fst (invoke mini_argparse sample_call ''t'' [''--a'', ''1'']
         (snd (decorate [TaskDec ''t'', OptionDec [''--a''] [], OptionDec [''--b''] []] 0 fresh)))
     = Inr (PyList [PyNone, PyStr ''1''])"
proof -
  let ?s1 = "snd (decorate [TaskDec ''t'', OptionDec [''--a''] [], OptionDec [''--b''] []] 0 fresh)"
  have h: "opts_attr fresh 0 = None" by (simp add: fresh_def)
  have b: "build_parser mini_argparse (ArgumentParser mini_argparse ''seatask'')
      [\<lparr>args = [''--b''], kwargs = []\<rparr>, \<lparr>args = [''--a''], kwargs = []\<rparr>] = Inr [''--b'', ''--a'']"
    by (simp add: mini_argparse_def mini_add_def)
  have p: "parse_args mini_argparse [''--b'', ''--a''] [''--a'', ''1'']
             = Inr [(''b'', PyNone), (''a'', PyStr ''1'')]"
    by (simp add: mini_argparse_def mini_parse_def dashed_def)
  have d: "TaskDec ''t'' # map option_decorator [([''--a''], []), ([''--b''], [])]
             = [TaskDec ''t'', OptionDec [''--a''] [], OptionDec [''--b''] []]"
    by (simp add: option_decorator_def)
  have r: "rev (map descriptor [([''--a''], []), ([''--b''], [])])
             = [\<lparr>args = [''--b''], kwargs = []\<rparr>, \<lparr>args = [''--a''], kwargs = []\<rparr>]"
    by (simp add: descriptor_def)
  note inst = stacked_options_reversed[OF h refl, where name = "''t''"
        and decls = "[([''--a''], []), ([''--b''], [])]" and B = mini_argparse
        and body = sample_call, unfolded d r]
  have g: "get_opts ?s1 0 = [\<lparr>args = [''--b''], kwargs = []\<rparr>, \<lparr>args = [''--a''], kwargs = []\<rparr>]"
    using inst[of "[]"] by blast
  have dc: "declared (new_events ?s1 (snd (invoke mini_argparse sample_call ''t'' [] ?s1)))
      = [\<lparr>args = [''--b''], kwargs = []\<rparr>, \<lparr>args = [''--a''], kwargs = []\<rparr>]"
    using inst[of "[]"] b by blast
  have f: "fst (invoke mini_argparse sample_call ''t'' [''--a'', ''1''] ?s1)
      = Inr (PyList [PyNone, PyStr ''1''])"
    using inst[of "[''--a'', ''1'']"] b p by (simp add: sample_call_def)
  show ?thesis using h g b dc f by blast
qed

text \<open>
  C9. The binder of \<open>task\<close> returns the callable it is given, as the binder of \<open>option\<close>
  does, and the two compose in either order with the same result: the same function
  object comes back and the whole state is the same, so the name is bound to that
  function, the function carries the same descriptors, and a dispatch behaves the same.
  The registration may stand anywhere among stacked option declarations.
\<close>

theorem task_and_option_commute:
  "fst (task name f s) = f \<and>
   fst (option a k f s) = f \<and>
   decorate [TaskDec name, OptionDec a k] f s = decorate [OptionDec a k, TaskDec name] f s \<and>
   getitem (snd (decorate [TaskDec name, OptionDec a k] f s)) name = Inr f \<and>
   getitem (snd (decorate [OptionDec a k, TaskDec name] f s)) name = Inr f \<and>
   get_opts (snd (decorate [TaskDec name, OptionDec a k] f s)) f = get_opts s f @ [\<lparr>args = a, kwargs = k\<rparr>] \<and>
   get_opts (snd (decorate [OptionDec a k, TaskDec name] f s)) f = get_opts s f @ [\<lparr>args = a, kwargs = k\<rparr>] \<and>
   invoke B body name extra (snd (decorate [TaskDec name, OptionDec a k] f s)) =
     invoke B body name extra (snd (decorate [OptionDec a k, TaskDec name] f s)) \<and>
   decorate (map option_decorator upper @ TaskDec name # map option_decorator lower) f s =
     decorate (TaskDec name # map option_decorator upper @ map option_decorator lower) f s"
proof -
  have c: "decorate [TaskDec name, OptionDec a k] f s = decorate [OptionDec a k, TaskDec name] f s"
    using task_option_commute[of name f a k s]
    by (simp add: decorate_Cons del: decorate.simps(2))
  have d: "decorate [TaskDec name, OptionDec a k] f s = task name f (snd (option a k f s))"
    by (simp add: decorate_Cons del: decorate.simps(2))
  have l: "getitem (snd (decorate [TaskDec name, OptionDec a k] f s)) name = Inr f"
    unfolding d by (simp add: task_def getitem_def)
  have o: "get_opts (snd (decorate [TaskDec name, OptionDec a k] f s)) f
             = get_opts s f @ [\<lparr>args = a, kwargs = k\<rparr>]"
    unfolding d by (simp add: get_opts_task get_opts_option)
  show ?thesis
    using l o task_moves_up[of upper name "map option_decorator lower" f s]
    unfolding c[symmetric]
    by (simp add: task_returns_func option_returns_func del: decorate.simps)
qed

theorem task_and_option_commute_witness:
  "decorate [TaskDec ''greet'', OptionDec [''--who''] []] 0 fresh =
     decorate [OptionDec [''--who''] [], TaskDec ''greet''] 0 fresh \<and>
   getitem (snd (decorate [OptionDec [''--who''] [], TaskDec ''greet''] 0 fresh)) ''greet'' = Inr 0 \<and>
   get_opts (snd (decorate [OptionDec [''--who''] [], TaskDec ''greet''] 0 fresh)) 0
     = [\<lparr>args = [''--who''], kwargs = []\<rparr>]"
  using task_and_option_commute[where name = "''greet''" and f = 0 and s = fresh
      and a = "[''--who'']" and k = "[]" and B = mini_argparse and body = sample_call
      and extra = "[]" and upper = "[]" and lower = "[]"]
  by (simp add: get_opts_def fresh_def)




section \<open>Properties of the discovery\<close>

text \<open>
  C4. \<open>TaskCmd.run\<close> loads the plugins first and the task files of the application
  second. When both loaders return and a task file of the application registers a name,
  a lookup of that name after them returns the function that the application registered
  (the last one, when several task files register the name), whatever the plugins had
  registered under it; this is the state in which \<open>run\<close> dispatches.
\<close>

theorem application_task_overrides_plugin:
  assumes "create_app env (workdir a) = Inr ap"
    and "load_plugin_tasks env s = (Inr b1, s1)"
    and "listdir (files env) (join (root_path ap) ''tasks'') = Inr ms"
    and "load_app_tasks env ap s1 = (Inr b2, s2)"
    and "registered name (app_statements env (join (root_path ap) ''tasks'') ms) \<noteq> []"
  shows "getitem s2 name = Inr (last (registered name (app_statements env (join (root_path ap) ''tasks'') ms))) \<and>
         run env a extra s = invoke (lib env) (call env) (task_arg a) extra s2"
proof -
  have "load_files env (join (root_path ap) ''tasks'') ms s1 = (Inr b2, s2)"
    using assms(3) assms(4) by (simp add: load_app_tasks_def)
  from load_files_tasks[OF this, of name] assms(5)
  have "tasks s2 name = Some (last (registered name (app_statements env (join (root_path ap) ''tasks'') ms)))"
    by simp
  moreover have "run env a extra s = invoke (lib env) (call env) (task_arg a) extra s2"
    using assms(1) assms(2) assms(4) by (simp add: run_def)
  ultimately show ?thesis by (simp add: getitem_def)
qed

theorem application_task_overrides_plugin_witness:
  "create_app demo_env (workdir \<lparr>workdir = ''/app'', task_arg = ''build''\<rparr>) = Inr demo_app \<and>
   fst (load_plugin_tasks demo_env fresh) = Inr True \<and>
   getitem (snd (load_plugin_tasks demo_env fresh)) ''build'' = Inr 1 \<and>
   listdir (files demo_env) (join (root_path demo_app) ''tasks'')
     = Inr [''__init__.py'', ''build.py'', ''notes.txt'', ''pkg.py''] \<and>
   fst (load_app_tasks demo_env demo_app (snd (load_plugin_tasks demo_env fresh))) = Inr True \<and>
   registered ''build'' (app_statements demo_env (join (root_path demo_app) ''tasks'')
       [''__init__.py'', ''build.py'', ''notes.txt'', ''pkg.py'']) = [0] \<and>
   getitem (snd (load_app_tasks demo_env demo_app (snd (load_plugin_tasks demo_env fresh)))) ''build''
     = Inr 0"
proof -
  let ?a = "\<lparr>workdir = ''/app'', task_arg = ''build''\<rparr>"
  let ?ms = "[''__init__.py'', ''build.py'', ''notes.txt'', ''pkg.py'']"
  let ?s1 = "snd (load_plugin_tasks demo_env fresh)"
  let ?s2 = "snd (load_app_tasks demo_env demo_app ?s1)"
  have root: "join (root_path demo_app) ''tasks'' = ''/app/tasks''"
    by (simp add: join_def demo_app_def)
  have h1: "create_app demo_env (workdir ?a) = Inr demo_app"
    by (simp add: demo_env_def demo_app_def)
  have p: "fst (load_plugin_tasks demo_env fresh) = Inr True"
    by (simp add: load_plugin_tasks_def demo_env_def)
  then have h2: "load_plugin_tasks demo_env fresh = (Inr True, ?s1)"
    by (metis prod.collapse)
  have g: "getitem ?s1 ''build'' = Inr 1"
    by (simp add: load_plugin_tasks_def demo_env_def getitem_def task_def)
  have h3: "listdir (files demo_env) (join (root_path demo_app) ''tasks'') = Inr ?ms"
    by (simp add: root listdir_def demo_env_def)
  have t1: "\<not> is_task_file (files demo_env) ''/app/tasks'' ''__init__.py''"
    by (simp add: is_task_file_def)
  have t2: "is_task_file (files demo_env) ''/app/tasks'' ''build.py''"
    by (simp add: is_task_file_def endswith_def isfile_def join_def demo_env_def)
  have t3: "\<not> is_task_file (files demo_env) ''/app/tasks'' ''notes.txt''"
    by (simp add: is_task_file_def endswith_def)
  have t4: "\<not> is_task_file (files demo_env) ''/app/tasks'' ''pkg.py''"
    by (simp add: is_task_file_def endswith_def isfile_def join_def demo_env_def)
  have mp: "module_path ''build.py'' = ''tasks.build''"
    by (simp add: module_path_def)
  have md: "modules demo_env ''tasks.build'' = Some [Decorated [TaskDec ''build''] 0]"
    by (simp add: demo_env_def)
  have q: "fst (load_app_tasks demo_env demo_app ?s1) = Inr True"
    by (simp add: load_app_tasks_def Let_def h3[unfolded root] root t1 t2 t3 t4 mp
        import_string_def md split: prod.splits)
  then have h4: "load_app_tasks demo_env demo_app ?s1 = (Inr True, ?s2)"
    by (metis prod.collapse)
  have r: "registered ''build'' (app_statements demo_env (join (root_path demo_app) ''tasks'') ?ms) = [0]"
    by (simp add: root app_statements_def task_files_def t1 t2 t3 t4 mp module_body_def md)
  then have h5: "registered ''build'' (app_statements demo_env (join (root_path demo_app) ''tasks'') ?ms) \<noteq> []"
    by simp
  show ?thesis
    using application_task_overrides_plugin[OF h1 h2 h3 h4 h5] h1 p g h3 q r
    by simp
qed

text \<open>
  C5. When the import of a task file raises, \<open>_load_app_tasks\<close> ends with that error at
  once, in the state the failing import left: the modules imported are those of the task
  files before it and its own, none of a file later in the listing, and a name that
  neither was registered before the failing file nor by it is not in the registry,
  whatever the later files define.
\<close>

theorem load_app_tasks_fail_fast:
  assumes "root = join (root_path ap) ''tasks''"
    and "listdir (files env) root = Inr (pre @ m # post)"
    and "is_task_file (files env) root m"
    and "load_files env root pre s = (Inr b, s1)"
    and "import_string (modules env) (module_path m) (emit (Imported (module_path m)) s1) = (Inl e, s2)"
  shows "load_app_tasks env ap s = (Inl e, s2) \<and>
         imported (new_events s s2) = map module_path (task_files env root pre) @ [module_path m] \<and>
         (\<forall>n. tasks s1 n = None \<and> registered n (module_body (modules env) (module_path m)) = []
              \<longrightarrow> tasks s2 n = None)"
proof -
  let ?body = "module_body (modules env) (module_path m)"
  let ?s0 = "emit (Imported (module_path m)) s1"
  have l: "load_app_tasks env ap s = (Inl e, s2)"
    using load_files_fail_fast[OF assms(4) assms(3) assms(5), of post] assms(1) assms(2)
    by (simp add: load_app_tasks_def)
  have ex: "exec_module ?body ?s0 = (Inl e, s2)"
    using assms(5) by (simp add: import_string_body)
  from load_files_trace[OF assms(4)]
  have tr1: "trace s1 = trace s @ map Imported (map module_path (task_files env root pre))"
    by auto
  have tr2: "trace s2 = trace s1 @ [Imported (module_path m)]"
    using exec_module_trace[of ?body ?s0] ex by (simp add: emit_def)
  have i: "imported (new_events s s2) = map module_path (task_files env root pre) @ [module_path m]"
    by (simp add: new_events_def tr1 tr2 imported_append imported_map_comp)
  have t: "tasks s2 n = (if registered n ?body = [] then tasks s1 n else Some (last (registered n ?body)))" for n
    using exec_module_tasks[of ?body ?s0 n] ex by (simp add: emit_def)
  show ?thesis using l i t by simp
qed

theorem load_app_tasks_fail_fast_witness:
  "listdir (files broken_env) (join (root_path demo_app) ''tasks'') = Inr ([''a.py''] @ ''bad.py'' # [''zed.py'']) \<and>
   is_task_file (files broken_env) (join (root_path demo_app) ''tasks'') ''bad.py'' \<and>
   fst (load_files broken_env (join (root_path demo_app) ''tasks'') [''a.py''] fresh) = Inr True \<and>
   tasks (snd (load_files broken_env (join (root_path demo_app) ''tasks'') [''a.py''] fresh)) ''zed'' = None \<and>
   registered ''zed'' (module_body (modules broken_env) (module_path ''bad.py'')) = [] \<and>
   registered ''zed'' (module_body (modules broken_env) (module_path ''zed.py'')) = [3] \<and>
   fst (load_app_tasks broken_env demo_app fresh) = Inl (Raised ''SyntaxError'') \<and>
   imported (new_events fresh (snd (load_app_tasks broken_env demo_app fresh))) = [''tasks.a'', ''tasks.bad''] \<and>
   tasks (snd (load_app_tasks broken_env demo_app fresh)) ''zed'' = None"
proof -
  let ?root = "join (root_path demo_app) ''tasks''"
  let ?s1 = "snd (load_files broken_env ?root [''a.py''] fresh)"
  let ?s0 = "emit (Imported (module_path ''bad.py'')) ?s1"
  let ?s2 = "snd (import_string (modules broken_env) (module_path ''bad.py'') ?s0)"
  have root: "?root = ''/app/tasks''"
    by (simp add: join_def demo_app_def)
  have h2: "listdir (files broken_env) ?root = Inr ([''a.py''] @ ''bad.py'' # [''zed.py''])"
    by (simp add: root listdir_def broken_env_def)
  have ta: "is_task_file (files broken_env) ''/app/tasks'' ''a.py''"
    by (simp add: is_task_file_def endswith_def isfile_def join_def broken_env_def)
  have h3: "is_task_file (files broken_env) ?root ''bad.py''"
    unfolding root by (simp add: is_task_file_def endswith_def isfile_def join_def broken_env_def)
  have mp: "module_path ''a.py'' = ''tasks.a''" "module_path ''bad.py'' = ''tasks.bad''"
    "module_path ''zed.py'' = ''tasks.zed''"
    by (simp_all add: module_path_def)
  have md: "modules broken_env ''tasks.a'' = Some [Decorated [TaskDec ''a''] 0]"
    "modules broken_env ''tasks.bad'' = Some [Decorated [TaskDec ''half''] 2, Raise (Raised ''SyntaxError'')]"
    "modules broken_env ''tasks.zed'' = Some [Decorated [TaskDec ''zed''] 3]"
    by (simp_all add: broken_env_def)
  have f1: "fst (load_files broken_env ?root [''a.py''] fresh) = Inr True"
    by (simp add: root ta mp import_string_def md split: prod.splits)
  then have h4: "load_files broken_env ?root [''a.py''] fresh = (Inr True, ?s1)"
    by (metis prod.collapse)
  have z1: "tasks ?s1 ''zed'' = None"
    by (simp add: root ta mp import_string_def md task_def emit_def fresh_def)
  have f2: "fst (import_string (modules broken_env) (module_path ''bad.py'') ?s0) = Inl (Raised ''SyntaxError'')"
    by (simp add: mp import_string_def md)
  then have h5: "import_string (modules broken_env) (module_path ''bad.py'') ?s0 = (Inl (Raised ''SyntaxError''), ?s2)"
    by (metis prod.collapse)
  have r1: "registered ''zed'' (module_body (modules broken_env) (module_path ''bad.py'')) = []"
    by (simp add: mp module_body_def md)
  have r2: "registered ''zed'' (module_body (modules broken_env) (module_path ''zed.py'')) = [3]"
    by (simp add: mp module_body_def md)
  have tf: "map module_path (task_files broken_env ?root [''a.py'']) = [''tasks.a'']"
    by (simp add: root task_files_def ta mp)
  show ?thesis
    using load_app_tasks_fail_fast[OF refl h2 h3 h4 h5] h2 h3 f1 z1 r1 r2
    by (simp add: tf mp)
qed

text \<open>
  C8. \<open>_load_app_tasks\<close> imports the entries of the listing of \<open>tasks\<close> that are regular
  files, have a name ending in \<open>.py\<close> and are not \<open>__init__.py\<close>, in the order of the
  listing, each as \<open>tasks.\<close> followed by the name without its extension, and nothing
  else. Its result is the result of importing exactly these module paths one after the
  other with \<open>import_string\<close>, and so is its state but for the trace, which records
  them: a prefix of these module paths, and all of them when it returns. A directory
  among the entries is not a regular file, so nothing in it is imported.
\<close>

theorem load_app_tasks_imports:
  assumes "root = join (root_path ap) ''tasks''"
    and "listdir (files env) root = Inr ms"
    and "load_app_tasks env ap s = (r, s')"
  shows "prefix (imported (new_events s s')) (map module_path (task_files env root ms)) \<and>
         (\<forall>b. r = Inr b \<longrightarrow> imported (new_events s s') = map module_path (task_files env root ms)) \<and>
         task_files env root ms =
           filter (\<lambda>m. files env (join root m) = Some File \<and> endswith m ''.py'' \<and> m \<noteq> ''__init__.py'') ms \<and>
         (\<forall>m \<in> set (task_files env root ms). m = take (length m - 3) m @ ''.py'' \<and>
            module_path m = ''tasks.'' @ take (length m - 3) m) \<and>
         r = fst (import_all (modules env)
                    (map (\<lambda>m. ''tasks.'' @ take (length m - 3) m)
                       (filter (\<lambda>m. files env (join root m) = Some File \<and> endswith m ''.py''
                                  \<and> m \<noteq> ''__init__.py'') ms)) s) \<and>
         s' = (snd (import_all (modules env)
                    (map (\<lambda>m. ''tasks.'' @ take (length m - 3) m)
                       (filter (\<lambda>m. files env (join root m) = Some File \<and> endswith m ''.py''
                                  \<and> m \<noteq> ''__init__.py'') ms)) s))\<lparr>trace := trace s'\<rparr>"
proof -
  have lf: "load_files env root ms s = (r, s')"
    using assms by (simp add: load_app_tasks_def)
  from load_files_imports[OF lf]
  have a: "prefix (imported (new_events s s')) (map module_path (task_files env root ms))"
    and b: "\<forall>b. r = Inr b \<longrightarrow> imported (new_events s s') = map module_path (task_files env root ms)"
    by blast+
  have c: "task_files env root ms =
           filter (\<lambda>m. files env (join root m) = Some File \<and> endswith m ''.py'' \<and> m \<noteq> ''__init__.py'') ms"
    unfolding task_files_def is_task_file_def isfile_def by (rule filter_cong) auto
  have d: "\<forall>m \<in> set (task_files env root ms). m = take (length m - 3) m @ ''.py'' \<and>
            module_path m = ''tasks.'' @ take (length m - 3) m"
    using endswith_py by (auto simp: task_files_def is_task_file_def module_path_def)
  have p: "map module_path (task_files env root ms) =
           map (\<lambda>m. ''tasks.'' @ take (length m - 3) m)
             (filter (\<lambda>m. files env (join root m) = Some File \<and> endswith m ''.py''
                        \<and> m \<noteq> ''__init__.py'') ms)"
    unfolding c[symmetric] by (simp add: module_path_def)
  from load_files_import_all[OF lf]
  have e: "r = fst (import_all (modules env) (map module_path (task_files env root ms)) s)"
    and f: "s' = (snd (import_all (modules env) (map module_path (task_files env root ms)) s))\<lparr>trace := trace s'\<rparr>"
    by blast+
  show ?thesis using a b c d e f unfolding p by blast
qed

theorem load_app_tasks_imports_witness:
  "listdir (files listing_env) (join (root_path demo_app) ''tasks'')
     = Inr [''__init__.py'', ''build.py'', ''notes.txt'', ''pkg.py''] \<and>
   fst (load_app_tasks listing_env demo_app fresh) = Inr True \<and>
   task_files listing_env (join (root_path demo_app) ''tasks'')
     [''__init__.py'', ''build.py'', ''notes.txt'', ''pkg.py''] = [''build.py''] \<and>
   imported (new_events fresh (snd (load_app_tasks listing_env demo_app fresh))) = [''tasks.build''] \<and>
   tasks (snd (load_app_tasks listing_env demo_app fresh)) = [''build'' \<mapsto> 0] \<and>
   modules listing_env ''tasks.__init__'' = Some [Decorated [TaskDec ''init''] 5] \<and>
   modules listing_env ''tasks.pkg'' = Some [Decorated [TaskDec ''pkg''] 7] \<and>
   modules listing_env ''tasks.inner'' = Some [Decorated [TaskDec ''inner''] 8]"
proof -
  let ?ms = "[''__init__.py'', ''build.py'', ''notes.txt'', ''pkg.py'']"
  let ?s' = "snd (load_app_tasks listing_env demo_app fresh)"
  have root: "join (root_path demo_app) ''tasks'' = ''/app/tasks''"
    by (simp add: join_def demo_app_def)
  have h2: "listdir (files listing_env) (join (root_path demo_app) ''tasks'') = Inr ?ms"
    by (simp add: root listdir_def listing_env_def)
  have t1: "\<not> is_task_file (files listing_env) ''/app/tasks'' ''__init__.py''"
    by (simp add: is_task_file_def)
  have t2: "is_task_file (files listing_env) ''/app/tasks'' ''build.py''"
    by (simp add: is_task_file_def endswith_def isfile_def join_def listing_env_def)
  have t3: "\<not> is_task_file (files listing_env) ''/app/tasks'' ''notes.txt''"
    by (simp add: is_task_file_def endswith_def)
  have t4: "\<not> is_task_file (files listing_env) ''/app/tasks'' ''pkg.py''"
    by (simp add: is_task_file_def endswith_def isfile_def join_def listing_env_def)
  have mp: "module_path ''build.py'' = ''tasks.build''"
    by (simp add: module_path_def)
  have md: "modules listing_env ''tasks.build'' = Some [Decorated [TaskDec ''build''] 0]"
    "modules listing_env ''tasks.__init__'' = Some [Decorated [TaskDec ''init''] 5]"
    "modules listing_env ''tasks.pkg'' = Some [Decorated [TaskDec ''pkg''] 7]"
    "modules listing_env ''tasks.inner'' = Some [Decorated [TaskDec ''inner''] 8]"
    by (simp_all add: listing_env_def)
  have q: "fst (load_app_tasks listing_env demo_app fresh) = Inr True"
    by (simp add: load_app_tasks_def Let_def h2[unfolded root] root t1 t2 t3 t4 mp
        import_string_def md split: prod.splits)
  then have h3: "load_app_tasks listing_env demo_app fresh = (Inr True, ?s')"
    by (metis prod.collapse)
  have tf: "task_files listing_env (join (root_path demo_app) ''tasks'') ?ms = [''build.py'']"
    by (simp add: root task_files_def t1 t2 t3 t4)
  note inst = load_app_tasks_imports[OF refl h2 h3]
  note c2 = inst[THEN conjunct2, THEN conjunct1]
  note c3 = inst[THEN conjunct2, THEN conjunct2, THEN conjunct1]
  note c6 = inst[THEN conjunct2, THEN conjunct2, THEN conjunct2, THEN conjunct2, THEN conjunct2]
  have "imported (new_events fresh ?s') =
          map module_path (task_files listing_env (join (root_path demo_app) ''tasks'') ?ms)"
    using c2 by blast
  then have i: "imported (new_events fresh ?s') = [''tasks.build'']"
    by (simp only: tf mp list.map)
  have flt: "filter (\<lambda>m. files listing_env (join (join (root_path demo_app) ''tasks'') m) = Some File
                    \<and> endswith m ''.py'' \<and> m \<noteq> ''__init__.py'') ?ms = [''build.py'']"
    using c3[symmetric] tf by (rule trans)
  have st: "?s' = (snd (import_all (modules listing_env) [''tasks.build''] fresh))\<lparr>trace := trace ?s'\<rparr>"
    using c6 unfolding flt by simp
  have "tasks ?s' = tasks ((snd (import_all (modules listing_env) [''tasks.build''] fresh))\<lparr>trace := trace ?s'\<rparr>)"
    by (rule arg_cong[OF st])
  then have t: "tasks ?s' = [''build'' \<mapsto> 0]"
    by (simp add: import_string_def md task_def fresh_def)
  show ?thesis
    using h2 q tf i t md by (intro conjI)
qed

text \<open>
  C10. When \<open>tasks\<close> under the application root does not exist, \<open>_load_app_tasks\<close> fails
  with \<open>FileNotFoundError\<close> and changes nothing; whenever the path is not a directory it
  fails; it returns only when the path is a directory, and then it returns \<open>True\<close>; for
  an empty directory it returns \<open>True\<close> and changes nothing.
\<close>

theorem load_app_tasks_needs_directory:
  assumes "root = join (root_path ap) ''tasks''"
  shows "(files env root = None \<longrightarrow> load_app_tasks env ap s = (Inl (FileNotFoundError root), s)) \<and>
         ((\<forall>ms. files env root \<noteq> Some (Dir ms)) \<longrightarrow> (\<exists>e. load_app_tasks env ap s = (Inl e, s))) \<and>
         (files env root = Some (Dir []) \<longrightarrow> load_app_tasks env ap s = (Inr True, s)) \<and>
         (\<forall>b s'. load_app_tasks env ap s = (Inr b, s') \<longrightarrow> b \<and> (\<exists>ms. files env root = Some (Dir ms)))"
proof (intro conjI impI allI)
  show "load_app_tasks env ap s = (Inl (FileNotFoundError root), s)" if "files env root = None"
    using that assms by (simp add: load_app_tasks_def listdir_def)
  show "\<exists>e. load_app_tasks env ap s = (Inl e, s)" if "\<forall>ms. files env root \<noteq> Some (Dir ms)"
    using that assms
    by (auto simp: load_app_tasks_def Let_def listdir_def split: option.splits node.splits)
  show "load_app_tasks env ap s = (Inr True, s)" if "files env root = Some (Dir [])"
    using that assms by (simp add: load_app_tasks_def listdir_def)
  show "b" if "load_app_tasks env ap s = (Inr b, s')" for b s'
    using that assms load_files_returns_True
    by (auto simp: load_app_tasks_def Let_def split: sum.splits)
  show "\<exists>ms. files env root = Some (Dir ms)" if "load_app_tasks env ap s = (Inr b, s')" for b s'
    using that assms
    by (auto simp: load_app_tasks_def Let_def listdir_def split: sum.splits option.splits node.splits)
qed

theorem load_app_tasks_needs_directory_witness:
  "files no_tasks_env (join (root_path demo_app) ''tasks'') = None \<and>
   (\<forall>ms. files no_tasks_env (join (root_path demo_app) ''tasks'') \<noteq> Some (Dir ms)) \<and>
   load_app_tasks no_tasks_env demo_app fresh = (Inl (FileNotFoundError ''/app/tasks''), fresh) \<and>
   files empty_tasks_env (join (root_path demo_app) ''tasks'') = Some (Dir []) \<and>
   load_app_tasks empty_tasks_env demo_app fresh = (Inr True, fresh) \<and>
   (\<exists>ms. files empty_tasks_env (join (root_path demo_app) ''tasks'') = Some (Dir ms))"
proof -
  have root: "join (root_path demo_app) ''tasks'' = ''/app/tasks''"
    by (simp add: join_def demo_app_def)
  have n: "files no_tasks_env (join (root_path demo_app) ''tasks'') = None"
    by (simp add: no_tasks_env_def)
  have e: "files empty_tasks_env (join (root_path demo_app) ''tasks'') = Some (Dir [])"
    by (simp add: root empty_tasks_env_def)
  show ?thesis
    using load_app_tasks_needs_directory[OF refl, of no_tasks_env demo_app fresh]
      load_app_tasks_needs_directory[OF refl, of empty_tasks_env demo_app fresh] n e
    by (simp add: root)
qed


end
